theory Spec2Isabelle
  imports Main "HOL-Library.Sublist" "HOL-Library.Multiset"
begin

section \<open>Values\<close>

text \<open>
  The values the handlers of \<^verbatim>\<open>flaskr/__init__.py\<close> move around: what
  \<^verbatim>\<open>request.get_json()\<close> parses and what \<^verbatim>\<open>jsonify\<close> is given. A dictionary is an
  association list; a key is a string (the keys the handlers read and write are
  the ASCII literals of the source) or an integer (the keys of the category
  dictionary the handlers build). A Python string is a sequence of Unicode code
  points, here a list of natural numbers; \<open>lit\<close> is the string of an ASCII
  literal. JSON numbers with a fraction (Python floats) are not part of the
  model.
\<close>

type_synonym unicode = "nat list"

definition lit :: "string \<Rightarrow> unicode" where
  "lit s = map of_char s"

datatype key = KStr string | KInt int

datatype py =
    PNone
  | PBool bool
  | PInt int
  | PStr unicode
  | PList "py list"
  | PDict "(key \<times> py) list"

type_synonym dict = "(key \<times> py) list"

datatype py_exception = TypeError | KeyError | DatabaseError

text \<open>\<^verbatim>\<open>d.get(k)\<close> and \<^verbatim>\<open>d.get(k, default)\<close>.\<close>

definition get_default :: "dict \<Rightarrow> string \<Rightarrow> py \<Rightarrow> py" where
  "get_default d k dflt = (case map_of d (KStr k) of None \<Rightarrow> dflt | Some v \<Rightarrow> v)"

definition get :: "dict \<Rightarrow> string \<Rightarrow> py" where
  "get d k = get_default d k PNone"

text \<open>
  \<^verbatim>\<open>v[k]\<close> with a string \<^verbatim>\<open>k\<close>: a dictionary without the key raises KeyError,
  every other value (None, a number, a string, a list) raises TypeError.
\<close>

fun getitem :: "py \<Rightarrow> string \<Rightarrow> py_exception + py" where
  "getitem (PDict d) k = (case map_of d (KStr k) of None \<Rightarrow> Inl KeyError | Some v \<Rightarrow> Inr v)"
| "getitem v k = Inl TypeError"

text \<open>The truth value Python gives a value in \<^verbatim>\<open>if v\<close>, \<^verbatim>\<open>v and w\<close>, \<^verbatim>\<open>not v\<close>.\<close>

fun truthy :: "py \<Rightarrow> bool" where
  "truthy PNone = False"
| "truthy (PBool b) = b"
| "truthy (PInt i) = (i \<noteq> 0)"
| "truthy (PStr s) = (s \<noteq> [])"
| "truthy (PList xs) = (xs \<noteq> [])"
| "truthy (PDict d) = (d \<noteq> [])"

text \<open>\<^verbatim>\<open>str\<close> of an integer: its decimal digits, with a minus sign below zero.\<close>

definition digit_char :: "nat \<Rightarrow> nat" where
  "digit_char d = of_char (CHR ''0'') + d"

fun digits :: "nat \<Rightarrow> unicode" where
  "digits n = (if n < 10 then [digit_char n] else digits (n div 10) @ [digit_char (n mod 10)])"

declare digits.simps [simp del]

definition str_int :: "int \<Rightarrow> unicode" where
  "str_int i = (if i < 0 then lit ''-'' @ digits (nat (- i)) else digits (nat i))"

text \<open>
  \<^verbatim>\<open>str(v)\<close>, which is also what an f-string writes for \<^verbatim>\<open>{v}\<close>. On a list or a
  dictionary \<^verbatim>\<open>str\<close> is Python's \<^verbatim>\<open>repr\<close>, taken as the parameter \<open>repr\<close>.
\<close>

fun str :: "(py \<Rightarrow> unicode) \<Rightarrow> py \<Rightarrow> unicode" where
  "str repr PNone = lit ''None''"
| "str repr (PBool b) = (if b then lit ''True'' else lit ''False'')"
| "str repr (PInt i) = str_int i"
| "str repr (PStr s) = s"
| "str repr v = repr v"

text \<open>
  \<^verbatim>\<open>xs[start:end]\<close>: an index below zero counts from the end of the list, and
  both indices are clamped to the list; nothing is raised out of range.
\<close>

definition py_slice :: "'a list \<Rightarrow> int \<Rightarrow> int \<Rightarrow> 'a list" where
  "py_slice xs start stop =
     (let n = int (length xs);
          lo = (if start < 0 then max (n + start) 0 else min start n);
          hi = (if stop < 0 then max (n + stop) 0 else min stop n)
      in if lo < hi then take (nat (hi - lo)) (drop (nat lo) xs) else [])"

text \<open>
  \<^verbatim>\<open>random.choice(xs)\<close> on a list that is not empty: the element at an index
  below the length, drawn from the generator's next number \<open>rnd\<close>.
\<close>

definition choice :: "nat \<Rightarrow> 'a list \<Rightarrow> 'a" where
  "choice rnd xs = xs ! (rnd mod length xs)"

section \<open>Data layer\<close>

record Question =
  qid :: int
  question :: unicode
  answer :: unicode
  category :: unicode
  difficulty :: int

record Category =
  cid :: int
  ctype :: unicode

record database =
  questions :: "Question list"
  categories :: "Category list"

text \<open>
  Modelled from the spec: \<^verbatim>\<open>Question.format\<close> of \<^verbatim>\<open>models.py\<close>, which is not
  under src/. The spec gives the shape
  \<^verbatim>\<open>{id, question, answer, category, difficulty}\<close>.
\<close>

definition format :: "Question \<Rightarrow> py" where
  "format q = PDict [(KStr ''id'', PInt (qid q)),
                     (KStr ''question'', PStr (question q)),
                     (KStr ''answer'', PStr (answer q)),
                     (KStr ''category'', PStr (category q)),
                     (KStr ''difficulty'', PInt (difficulty q))]"

text \<open>
  The pattern language of SQL \<^verbatim>\<open>LIKE\<close>: \<^verbatim>\<open>%\<close> stands for any run of characters,
  \<^verbatim>\<open>_\<close> for any one character, and a backslash takes the next character of the
  pattern literally. A pattern that ends in a lone backslash matches nothing
  here; the patterns of \<^verbatim>\<open>search_questions\<close> end in \<^verbatim>\<open>%\<close>.
\<close>

definition percent :: nat where
  "percent = of_char (CHR ''%'')"

definition underscore :: nat where
  "underscore = of_char (CHR ''_'')"

definition backslash :: nat where
  "backslash = of_char (CHR 0x5C)"

fun like :: "unicode \<Rightarrow> unicode \<Rightarrow> bool" where
  "like [] s = (s = [])"
| "like (p # ps) [] = (p = percent \<and> like ps [])"
| "like (p # ps) (c # cs) =
     (if p = percent then like ps (c # cs) \<or> like (p # ps) cs
      else if p = underscore then like ps cs
      else if p = backslash then (case ps of [] \<Rightarrow> False | e # ps' \<Rightarrow> e = c \<and> like ps' cs)
      else p = c \<and> like ps cs)"

text \<open>
  \<^verbatim>\<open>ILIKE\<close> is \<^verbatim>\<open>LIKE\<close> on the lower case of the pattern and of the text. The
  lower case of an ASCII character is fixed (\<^verbatim>\<open>A\<close> to \<^verbatim>\<open>Z\<close> become \<^verbatim>\<open>a\<close> to
  \<^verbatim>\<open>z\<close>); that of a character beyond ASCII is the database locale's, the
  parameter \<open>tolower\<close>, taken character by character.
\<close>

definition lower :: "(nat \<Rightarrow> nat) \<Rightarrow> nat \<Rightarrow> nat" where
  "lower tolower c =
     (if c < 128
      then (if of_char (CHR ''A'') \<le> c \<and> c \<le> of_char (CHR ''Z'') then c + 32 else c)
      else tolower c)"

definition ilike :: "(nat \<Rightarrow> nat) \<Rightarrow> unicode \<Rightarrow> unicode \<Rightarrow> bool" where
  "ilike tolower s pattern = like (map (lower tolower) pattern) (map (lower tolower) s)"

text \<open>
  The search as the spec words it, to compare \<^verbatim>\<open>ILIKE\<close> with: the term is a
  substring of the text, without regard to case. A character of the term that
  the pattern language reads as more than itself is a wildcard.
\<close>

definition contains_ci :: "(nat \<Rightarrow> nat) \<Rightarrow> unicode \<Rightarrow> unicode \<Rightarrow> bool" where
  "contains_ci tolower needle hay = sublist (map (lower tolower) needle) (map (lower tolower) hay)"

definition wildcard :: "nat \<Rightarrow> bool" where
  "wildcard c \<longleftrightarrow> c = percent \<or> c = underscore \<or> c = backslash"

section \<open>Responses\<close>

datatype http_error = NotFound | Unprocessable | BadRequest

type_synonym response = "http_error + py"

text \<open>The status of a response; the three error handlers send their own code.\<close>

fun status_code :: "response \<Rightarrow> nat" where
  "status_code (Inr body) = 200"
| "status_code (Inl NotFound) = 404"
| "status_code (Inl Unprocessable) = 422"
| "status_code (Inl BadRequest) = 400"

section \<open>Pagination\<close>

definition QUESTIONS_PER_PAGE :: int where
  "QUESTIONS_PER_PAGE = 10"

text \<open>
  \<open>page_arg\<close> is what \<^verbatim>\<open>request.args.get('page', 1, type=int)\<close> finds: \<open>None\<close> when
  the query has no \<^verbatim>\<open>page\<close> or \<^verbatim>\<open>int\<close> rejects its text, where \<^verbatim>\<open>get\<close> returns the
  default.
\<close>

definition paginate_questions :: "int option \<Rightarrow> Question list \<Rightarrow> py list" where
  "paginate_questions page_arg selection =
     (let page = (case page_arg of None \<Rightarrow> 1 | Some p \<Rightarrow> p);
          start = (page - 1) * QUESTIONS_PER_PAGE;
          stop = start + QUESTIONS_PER_PAGE;
          questions = map format selection
      in py_slice questions start stop)"

section \<open>Queries and the session\<close>

text \<open>
  A table is the list of its rows. \<^verbatim>\<open>Question.query.filter(c).all()\<close> keeps the
  rows that meet \<open>c\<close>, \<^verbatim>\<open>order_by(Question.id)\<close> sorts them by id, and
  \<^verbatim>\<open>session.get(Question, i)\<close> is the row whose id is \<open>i\<close>, if there is one.
\<close>

definition order_by_id :: "Question list \<Rightarrow> Question list" where
  "order_by_id rows = sort_key qid rows"

definition session_get :: "Question list \<Rightarrow> int \<Rightarrow> Question option" where
  "session_get rows i = find (\<lambda>q. qid q = i) rows"

text \<open>
  \<^verbatim>\<open>Question.id.notin_(v)\<close>. For a list of integers it keeps the ids that are not
  in the list. What the database layer makes of any other value (a list with a
  string or a null in it, a value that is no list) is the parameter \<open>other\<close>: a
  condition on ids, or an exception.
\<close>

fun int_of :: "py \<Rightarrow> int option" where
  "int_of (PInt i) = Some i"
| "int_of v = None"

fun id_list :: "py \<Rightarrow> int list option" where
  "id_list (PList xs) = those (map int_of xs)"
| "id_list v = None"

definition notin :: "(py \<Rightarrow> py_exception + (int \<Rightarrow> bool)) \<Rightarrow> py \<Rightarrow> py_exception + (int \<Rightarrow> bool)" where
  "notin other v = (case id_list v of Some ids \<Rightarrow> Inr (\<lambda>i. i \<notin> set ids) | None \<Rightarrow> other v)"

text \<open>
  The session of \<^verbatim>\<open>delete_question\<close>: the rows as committed and the rows as the
  open transaction sees them. \<open>fault\<close> says which call of the request, if any,
  raises a persistence error.
\<close>

record session =
  committed :: "Question list"
  pending :: "Question list"

datatype fault = NoFault | DeleteRaises | CommitRaises

definition session_delete :: "fault \<Rightarrow> session \<Rightarrow> Question \<Rightarrow> py_exception + session" where
  "session_delete f s q =
     (if f = DeleteRaises then Inl DatabaseError
      else Inr (s\<lparr>pending := filter (\<lambda>r. qid r \<noteq> qid q) (pending s)\<rparr>))"

definition session_commit :: "fault \<Rightarrow> session \<Rightarrow> py_exception + session" where
  "session_commit f s =
     (if f = CommitRaises then Inl DatabaseError else Inr (s\<lparr>committed := pending s\<rparr>))"

definition session_rollback :: "session \<Rightarrow> session" where
  "session_rollback s = s\<lparr>pending := committed s\<rparr>"

text \<open>
  Modelled from the spec: \<^verbatim>\<open>Question.insert\<close> of \<^verbatim>\<open>models.py\<close>, which is not
  under src/. It adds the row and commits; the id is generated by the database.
  \<open>stored\<close> is the row the database makes of the four values given to the
  constructor, or \<open>None\<close> where the insert raises (a value the column rejects, a
  persistence error).
\<close>

definition insert_question ::
  "(py \<times> py \<times> py \<times> py \<Rightarrow> Question option) \<Rightarrow> database \<Rightarrow> py \<times> py \<times> py \<times> py
     \<Rightarrow> py_exception + database \<times> Question" where
  "insert_question stored db vals =
     (case stored vals of
        None \<Rightarrow> Inl DatabaseError
      | Some row \<Rightarrow> Inr (db\<lparr>questions := questions db @ [row]\<rparr>, row))"

section \<open>Route handlers\<close>

text \<open>
  A handler takes what the request carries (the parsed \<^verbatim>\<open>page\<close> argument, the
  number in the path, the JSON object of the body) and the database, and returns
  the response; a handler that writes returns the database as well. The body of a
  POST is a JSON object.
\<close>

fun dict_set :: "dict \<Rightarrow> key \<Rightarrow> py \<Rightarrow> dict" where
  "dict_set [] k v = [(k, v)]"
| "dict_set ((k', v') # d) k v = (if k' = k then (k', v) # d else (k', v') # dict_set d k v)"

text \<open>\<^verbatim>\<open>{category.id: category.type for category in categories}\<close>\<close>

definition categories_dict :: "Category list \<Rightarrow> dict" where
  "categories_dict cats = foldl (\<lambda>d c. dict_set d (KInt (cid c)) (PStr (ctype c))) [] cats"

definition get_categories :: "database \<Rightarrow> response" where
  "get_categories db =
     (let cats = categories db
      in if length cats = 0 then Inl NotFound
         else Inr (PDict [(KStr ''success'', PBool True),
                          (KStr ''categories'', PDict (categories_dict cats))]))"

definition get_questions :: "int option \<Rightarrow> database \<Rightarrow> response" where
  "get_questions page_arg db =
     (let selection = order_by_id (questions db);
          current_questions = paginate_questions page_arg selection;
          cats = categories db
      in if length current_questions = 0 then Inl NotFound
         else Inr (PDict [(KStr ''success'', PBool True),
                          (KStr ''questions'', PList current_questions),
                          (KStr ''total_questions'', PInt (int (length selection))),
                          (KStr ''categories'', PDict (categories_dict cats)),
                          (KStr ''current_category'', PNone)]))"

text \<open>
  \<open>question_id\<close> is a natural number: the \<^verbatim>\<open>int\<close> converter of the route matches
  digits only. \<open>open_session\<close> is the session \<^verbatim>\<open>db.session()\<close> opens on the
  database, with nothing pending. \<open>delete_in_session\<close> is the block under
  \<^verbatim>\<open>with db.session() as session\<close>, from that session to the session the
  request leaves behind; the database after the request holds the committed rows.
\<close>

definition open_session :: "database \<Rightarrow> session" where
  "open_session db = \<lparr>committed = questions db, pending = questions db\<rparr>"

definition delete_in_session :: "fault \<Rightarrow> session \<Rightarrow> nat \<Rightarrow> response \<times> session" where
  "delete_in_session f s question_id =
     (case session_get (pending s) (int question_id) of
        None \<Rightarrow> (Inl NotFound, s)
      | Some q \<Rightarrow>
          (case session_delete f s q of
             Inl e \<Rightarrow> (Inl Unprocessable, session_rollback s)
           | Inr s1 \<Rightarrow>
               (case session_commit f s1 of
                  Inl e \<Rightarrow> (Inl Unprocessable, session_rollback s1)
                | Inr s2 \<Rightarrow>
                    (Inr (PDict [(KStr ''success'', PBool True),
                                 (KStr ''deleted'', PInt (int question_id))]),
                     s2))))"

definition delete_question :: "fault \<Rightarrow> database \<Rightarrow> nat \<Rightarrow> response \<times> database" where
  "delete_question f db question_id =
     (case delete_in_session f (open_session db) question_id of
        (r, s) \<Rightarrow> (r, db\<lparr>questions := committed s\<rparr>))"

definition create_question ::
  "(py \<times> py \<times> py \<times> py \<Rightarrow> Question option) \<Rightarrow> database \<Rightarrow> dict \<Rightarrow> response \<times> database" where
  "create_question stored db data =
     (let question_text = get data ''question'';
          answer = get data ''answer'';
          category = get data ''category'';
          difficulty = get data ''difficulty''
      in if \<not> (truthy question_text \<and> truthy answer \<and> truthy category \<and> truthy difficulty)
         then (Inl Unprocessable, db)
         else (case insert_question stored db (question_text, answer, category, difficulty) of
                 Inr (db', new_question) \<Rightarrow>
                   (Inr (PDict [(KStr ''success'', PBool True),
                                (KStr ''created'', PInt (qid new_question))]), db')
               | Inl e \<Rightarrow> (Inl Unprocessable, db)))"

definition search_questions ::
  "(nat \<Rightarrow> nat) \<Rightarrow> (py \<Rightarrow> unicode) \<Rightarrow> database \<Rightarrow> dict \<Rightarrow> response" where
  "search_questions tolower repr db data =
     (let search_term = get_default data ''searchTerm'' (PStr []);
          results = filter (\<lambda>q. ilike tolower (question q)
                                   (lit ''%'' @ str repr search_term @ lit ''%''))
                      (questions db)
      in Inr (PDict [(KStr ''success'', PBool True),
                     (KStr ''questions'', PList (map format results)),
                     (KStr ''total_questions'', PInt (int (length results)))]))"

definition get_questions_by_category :: "database \<Rightarrow> nat \<Rightarrow> response" where
  "get_questions_by_category db category_id =
     (let qs = filter (\<lambda>q. category q = str_int (int category_id)) (questions db)
      in if length qs = 0 then Inl NotFound
         else Inr (PDict [(KStr ''success'', PBool True),
                          (KStr ''questions'', PList (map format qs)),
                          (KStr ''total_questions'', PInt (int (length qs))),
                          (KStr ''current_category'', PInt (int category_id))]))"

text \<open>
  In \<^verbatim>\<open>play_quiz\<close> every exception of the \<^verbatim>\<open>try\<close> block ends in \<^verbatim>\<open>abort(422)\<close>:
  the failed \<^verbatim>\<open>quiz_category['id']\<close> and a query the database rejects.
\<close>

definition play_quiz ::
  "(py \<Rightarrow> unicode) \<Rightarrow> (py \<Rightarrow> py_exception + (int \<Rightarrow> bool)) \<Rightarrow> nat \<Rightarrow> database \<Rightarrow> dict
     \<Rightarrow> response" where
  "play_quiz repr other rnd db data =
     (let previous_questions = get_default data ''previous_questions'' (PList []);
          quiz_category = get_default data ''quiz_category'' PNone
      in case getitem quiz_category ''id'' of
           Inl e \<Rightarrow> Inl Unprocessable
         | Inr i \<Rightarrow>
             (case notin other previous_questions of
                Inl e \<Rightarrow> Inl Unprocessable
              | Inr unseen \<Rightarrow>
                  (let qs = (if truthy i
                             then filter (\<lambda>q. category q = str repr i \<and> unseen (qid q))
                                    (questions db)
                             else filter (\<lambda>q. unseen (qid q)) (questions db));
                       q = (if qs \<noteq> [] then format (choice rnd qs) else PNone)
                   in Inr (PDict [(KStr ''success'', PBool True), (KStr ''question'', q)]))))"

section \<open>Sample data\<close>

definition sample :: "nat \<Rightarrow> Question" where
  "sample i = \<lparr>qid = int i, question = lit ''abc'', answer = lit ''x'', category = lit ''3'',
                difficulty = 1\<rparr>"

definition samples :: "nat \<Rightarrow> Question list" where
  "samples n = map sample [1 ..< Suc n]"

definition sample_db :: "nat \<Rightarrow> database" where
  "sample_db n = \<lparr>questions = rev (samples n), categories = [\<lparr>cid = 3, ctype = lit ''History''\<rparr>]\<rparr>"

text \<open>The bodies that \<^verbatim>\<open>test_flaskr.py\<close> posts, and a database layer that stores them.\<close>

definition new_question :: dict where
  "new_question = [(KStr ''question'', PStr (lit ''What is the capital of France?'')),
                   (KStr ''answer'', PStr (lit ''Paris'')),
                   (KStr ''category'', PStr (lit ''3'')),
                   (KStr ''difficulty'', PInt 1)]"

definition incomplete_question :: dict where
  "incomplete_question = [(KStr ''question'', PStr (lit ''Incomplete question''))]"

fun sample_stored :: "py \<times> py \<times> py \<times> py \<Rightarrow> Question option" where
  "sample_stored (PStr q, PStr a, PStr c, PInt d) =
     Some \<lparr>qid = 24, question = q, answer = a, category = c, difficulty = d\<rparr>"
| "sample_stored vals = None"

text \<open>A body for \<^verbatim>\<open>POST /quizzes\<close>, and a table with questions of two categories.\<close>

definition quiz_data :: "int list \<Rightarrow> py \<Rightarrow> dict" where
  "quiz_data prev i = [(KStr ''previous_questions'', PList (map PInt prev)),
                       (KStr ''quiz_category'', PDict [(KStr ''id'', i)])]"

definition mixed_db :: database where
  "mixed_db = \<lparr>questions = [sample 1, (sample 2)\<lparr>category := lit ''5''\<rparr>],
                categories = [\<lparr>cid = 3, ctype = lit ''History''\<rparr>,
                              \<lparr>cid = 5, ctype = lit ''Art''\<rparr>]\<rparr>"

text \<open>The lower case of the capital letters of Latin-1, as a locale for the samples.\<close>

definition latin_fold :: "nat \<Rightarrow> nat" where
  "latin_fold c = (if 192 \<le> c \<and> c \<le> 222 \<and> c \<noteq> 215 then c + 32 else c)"

section \<open>Strings\<close>

lemma lit_eq_iff: "lit a = lit b \<longleftrightarrow> a = b"
proof -
  have "inj (of_char :: char \<Rightarrow> nat)"
    by (rule injI) simp
  then show ?thesis
    by (simp add: lit_def inj_map_eq_map)
qed

lemma lit_empty_iff: "lit s = [] \<longleftrightarrow> s = []"
  by (simp add: lit_def)

section \<open>Slices and pages\<close>

lemma take_drop_nth:
  "take n (drop m xs) = map (\<lambda>i. xs ! i) [m ..< min (m + n) (length xs)]"
proof (rule nth_equalityI)
  show "length (take n (drop m xs)) = length (map (\<lambda>i. xs ! i) [m ..< min (m + n) (length xs)])"
    by auto
next
  fix i assume "i < length (take n (drop m xs))"
  then have "i < n" and "m + i < length xs" by auto
  then show "take n (drop m xs) ! i = map (\<lambda>i. xs ! i) [m ..< min (m + n) (length xs)] ! i"
    by simp
qed

lemma py_slice_forward:
  assumes "0 \<le> start" and "start \<le> stop"
  shows "py_slice xs start stop = take (nat (stop - start)) (drop (nat start) xs)"
proof (cases "start < int (length xs)")
  case True
  with assms show ?thesis
    by (auto simp: py_slice_def Let_def min_def)
next
  case False
  with assms show ?thesis
    by (auto simp: py_slice_def Let_def min_def)
qed

lemma py_slice_empty_iff:
  "py_slice xs start stop = [] \<longleftrightarrow>
     \<not> (if start < 0 then max (int (length xs) + start) 0 else min start (int (length xs)))
        < (if stop < 0 then max (int (length xs) + stop) 0 else min stop (int (length xs)))"
  by (auto simp: py_slice_def Let_def min_def max_def)

lemma paginate_zero: "paginate_questions (Some 0) sel = []"
  by (simp add: paginate_questions_def QUESTIONS_PER_PAGE_def py_slice_empty_iff)

lemma paginate_negative:
  "0 < k \<Longrightarrow> paginate_questions (Some (- int k)) sel = [] \<longleftrightarrow> length sel \<le> 10 * k"
  by (auto simp: paginate_questions_def QUESTIONS_PER_PAGE_def py_slice_empty_iff Let_def max_def)

lemma paginate_forward:
  assumes "page = (case page_arg of None \<Rightarrow> 1 | Some N \<Rightarrow> N)" and "1 \<le> page"
  shows "paginate_questions page_arg sel =
           map (\<lambda>i. format (sel ! i)) [nat ((page - 1) * 10) ..< min (nat (page * 10)) (length sel)]"
proof -
  let ?start = "(page - 1) * 10"
  have "paginate_questions page_arg sel = py_slice (map format sel) ?start (?start + 10)"
    using assms(1) by (simp add: paginate_questions_def QUESTIONS_PER_PAGE_def Let_def)
  also have "\<dots> = take 10 (drop (nat ?start) (map format sel))"
    using assms(2) by (subst py_slice_forward) auto
  also have "\<dots> = map (\<lambda>i. map format sel ! i) [nat ?start ..< min (nat ?start + 10) (length sel)]"
    by (simp add: take_drop_nth)
  also have "\<dots> = map (\<lambda>i. format (sel ! i)) [nat ?start ..< min (nat ?start + 10) (length sel)]"
    by (rule map_cong) auto
  also have "nat ?start + 10 = nat (page * 10)"
    using assms(2) by (simp add: algebra_simps nat_add_distrib)
  finally show ?thesis .
qed

text \<open>
  C6. For every list of questions and every requested page number \<open>N\<close> from 1 on
  (1 when the query has no page), \<^verbatim>\<open>paginate_questions\<close> returns the formatted
  questions at the indices from \<open>(N - 1) * 10\<close> up to but excluding \<open>N * 10\<close>, as
  far as the list goes.
\<close>

theorem paginate_questions_slice:
  assumes "page = (case page_arg of None \<Rightarrow> 1 | Some N \<Rightarrow> N)" and "1 \<le> page"
  shows "paginate_questions page_arg sel =
           map (\<lambda>i. format (sel ! i)) [nat ((page - 1) * 10) ..< min (nat (page * 10)) (length sel)]"
  using assms by (rule paginate_forward)

theorem paginate_questions_slice_witness:
  "(2::int) = (case Some 2 of None \<Rightarrow> 1 | Some N \<Rightarrow> N) \<and> (1::int) \<le> 2 \<and>
   paginate_questions (Some 2) (samples 12) = map (\<lambda>i. format (samples 12 ! i)) [10 ..< 12]"
  using paginate_questions_slice [of 2 "Some 2" "samples 12"]
  by (simp add: samples_def)

lemma get_questions_NotFound_iff:
  "get_questions page_arg db = Inl NotFound \<longleftrightarrow>
     paginate_questions page_arg (order_by_id (questions db)) = []"
  by (simp add: get_questions_def Let_def)

lemma length_order_by_id: "length (order_by_id rows) = length rows"
  by (simp add: order_by_id_def)

lemma page_beyond_last:
  assumes "1 \<le> N" and "int (length rows) \<le> (N - 1) * 10"
  shows "paginate_questions (Some N) rows = []"
proof -
  have "length rows \<le> nat ((N - 1) * 10)" using assms by linarith
  then show ?thesis
    using assms(1) by (simp add: paginate_forward [of N "Some N"])
qed

text \<open>
  C2, as the claim states it, fails: page \<open>-1\<close> asks for \<^verbatim>\<open>questions[-20:-10]\<close>,
  which Python counts from the end of the list. With eleven questions that is
  the first question, and the response is not 404.
\<close>

theorem negative_page_counterexample:
  "paginate_questions (Some (- 1)) (samples 11) \<noteq> [] \<and>
   get_questions (Some (- 1)) \<lparr>questions = samples 11, categories = []\<rparr> \<noteq> Inl NotFound"
  by code_simp

lemma py_slice_nth:
  "py_slice xs start stop =
     map (\<lambda>i. xs ! i)
       [nat (if start < 0 then max (int (length xs) + start) 0 else min start (int (length xs))) ..<
        nat (if stop < 0 then max (int (length xs) + stop) 0 else min stop (int (length xs)))]"
proof -
  define lo where "lo = (if start < 0 then max (int (length xs) + start) 0 else min start (int (length xs)))"
  define hi where "hi = (if stop < 0 then max (int (length xs) + stop) 0 else min stop (int (length xs)))"
  have bounds: "0 \<le> lo" "hi \<le> int (length xs)"
    by (auto simp: lo_def hi_def)
  have "py_slice xs start stop = (if lo < hi then take (nat (hi - lo)) (drop (nat lo) xs) else [])"
    by (simp add: py_slice_def Let_def lo_def hi_def)
  also have "\<dots> = map (\<lambda>i. xs ! i) [nat lo ..< nat hi]"
  proof (cases "lo < hi")
    case True
    with bounds have "min (nat lo + nat (hi - lo)) (length xs) = nat hi"
      by linarith
    with True show ?thesis by (simp add: take_drop_nth)
  next
    case False
    then show ?thesis by simp
  qed
  finally show ?thesis by (simp add: lo_def hi_def)
qed

lemma paginate_negative_rows:
  assumes "0 < k"
  shows "paginate_questions (Some (- int k)) sel =
           map (\<lambda>i. format (sel ! i)) [length sel - 10 * (k + 1) ..< length sel - 10 * k]"
proof -
  have lo: "nat (max (int (length sel) + (- int k - 1) * 10) 0) = length sel - 10 * (k + 1)"
    by (simp add: max_def) linarith
  have hi: "nat (max (int (length sel) + ((- int k - 1) * 10 + 10)) 0) = length sel - 10 * k"
    by (simp add: max_def) linarith
  have "paginate_questions (Some (- int k)) sel =
          map (\<lambda>i. map format sel ! i) [length sel - 10 * (k + 1) ..< length sel - 10 * k]"
    using assms lo hi
    by (simp add: paginate_questions_def QUESTIONS_PER_PAGE_def Let_def py_slice_nth)
  also have "\<dots> = map (\<lambda>i. format (sel ! i)) [length sel - 10 * (k + 1) ..< length sel - 10 * k]"
    by (rule map_cong) auto
  finally show ?thesis .
qed

text \<open>
  C2, amended. For page 0 \<^verbatim>\<open>paginate_questions\<close> returns no rows and
  \<^verbatim>\<open>GET /questions\<close> is not found, for every database. For a negative page \<open>-k\<close>
  the slice is counted from the end of the list: it holds the questions at the
  indices from \<open>n - 10 * (k + 1)\<close>, or from 0 when that is negative, up to but
  excluding \<open>n - 10 * k\<close>, where \<open>n\<close> is the number of questions. So it is
  empty, and the response not found, exactly when there are at most \<open>10 * k\<close>
  questions; with more, the response is 200 and carries those rows of the
  questions in the order of their ids.
\<close>

theorem nonpositive_page:
  "paginate_questions (Some 0) sel = [] \<and>
   get_questions (Some 0) db = Inl NotFound \<and>
   (0 < k \<longrightarrow>
      (paginate_questions (Some (- int k)) sel = [] \<longleftrightarrow> length sel \<le> 10 * k) \<and>
      (get_questions (Some (- int k)) db = Inl NotFound \<longleftrightarrow> length (questions db) \<le> 10 * k) \<and>
      paginate_questions (Some (- int k)) sel =
        map (\<lambda>i. format (sel ! i)) [length sel - 10 * (k + 1) ..< length sel - 10 * k] \<and>
      (10 * k < length (questions db) \<longrightarrow>
         get_questions (Some (- int k)) db =
           Inr (PDict [(KStr ''success'', PBool True),
                       (KStr ''questions'',
                          PList (map (\<lambda>i. format (order_by_id (questions db) ! i))
                                   [length (questions db) - 10 * (k + 1) ..<
                                    length (questions db) - 10 * k])),
                       (KStr ''total_questions'', PInt (int (length (questions db)))),
                       (KStr ''categories'', PDict (categories_dict (categories db))),
                       (KStr ''current_category'', PNone)]) \<and>
         status_code (get_questions (Some (- int k)) db) = 200))"
proof (intro conjI impI)
  show "paginate_questions (Some 0) sel = []"
    by (rule paginate_zero)
  show "get_questions (Some 0) db = Inl NotFound"
    by (simp add: get_questions_NotFound_iff paginate_zero)
next
  assume k: "0 < k"
  show "paginate_questions (Some (- int k)) sel = [] \<longleftrightarrow> length sel \<le> 10 * k"
    using k by (rule paginate_negative)
  show "get_questions (Some (- int k)) db = Inl NotFound \<longleftrightarrow> length (questions db) \<le> 10 * k"
    using k by (simp add: get_questions_NotFound_iff paginate_negative length_order_by_id)
  show "paginate_questions (Some (- int k)) sel =
        map (\<lambda>i. format (sel ! i)) [length sel - 10 * (k + 1) ..< length sel - 10 * k]"
    using k by (rule paginate_negative_rows)
next
  assume k: "0 < k" and more: "10 * k < length (questions db)"
  let ?page = "paginate_questions (Some (- int k)) (order_by_id (questions db))"
  have ne: "?page \<noteq> []"
    using k more by (simp add: paginate_negative length_order_by_id)
  have rows: "?page = map (\<lambda>i. format (order_by_id (questions db) ! i))
                        [length (questions db) - 10 * (k + 1) ..< length (questions db) - 10 * k]"
    using paginate_negative_rows [OF k, of "order_by_id (questions db)"]
    by (simp only: length_order_by_id)
  have "get_questions (Some (- int k)) db =
           Inr (PDict [(KStr ''success'', PBool True),
                       (KStr ''questions'', PList ?page),
                       (KStr ''total_questions'', PInt (int (length (questions db)))),
                       (KStr ''categories'', PDict (categories_dict (categories db))),
                       (KStr ''current_category'', PNone)])"
    using ne by (simp add: get_questions_def Let_def length_order_by_id)
  then show resp: "get_questions (Some (- int k)) db =
           Inr (PDict [(KStr ''success'', PBool True),
                       (KStr ''questions'',
                          PList (map (\<lambda>i. format (order_by_id (questions db) ! i))
                                   [length (questions db) - 10 * (k + 1) ..<
                                    length (questions db) - 10 * k])),
                       (KStr ''total_questions'', PInt (int (length (questions db)))),
                       (KStr ''categories'', PDict (categories_dict (categories db))),
                       (KStr ''current_category'', PNone)])"
    by (simp only: rows)
  show "status_code (get_questions (Some (- int k)) db) = 200"
    by (simp only: resp status_code.simps)
qed

theorem nonpositive_page_witness:
  "paginate_questions (Some (- 1)) (samples 10) = [] \<and>
   get_questions (Some (- 1)) (sample_db 10) = Inl NotFound \<and>
   paginate_questions (Some (- 1)) (samples 25) = map (\<lambda>i. format (samples 25 ! i)) [5 ..< 15] \<and>
   get_questions (Some (- 1)) (sample_db 11) =
     Inr (PDict [(KStr ''success'', PBool True),
                 (KStr ''questions'', PList [format (sample 1)]),
                 (KStr ''total_questions'', PInt 11),
                 (KStr ''categories'', PDict [(KInt 3, PStr (lit ''History''))]),
                 (KStr ''current_category'', PNone)]) \<and>
   status_code (get_questions (Some (- 1)) (sample_db 11)) = 200"
proof -
  have len: "length (questions (sample_db 11)) = 11" "length (questions (sample_db 10)) = 10"
    by (simp_all add: sample_db_def samples_def)
  have first: "order_by_id (questions (sample_db 11)) ! 0 = sample 1"
    by code_simp
  have cats: "categories_dict (categories (sample_db 11)) = [(KInt 3, PStr (lit ''History''))]"
    by code_simp
  show ?thesis
    using nonpositive_page [of "samples 10" "sample_db 10" 1]
          nonpositive_page [of "samples 25" "sample_db 11" 1]
    by (simp add: len first cats samples_def)
qed

section \<open>Listing the questions\<close>

lemma map_of_dict_set: "map_of (dict_set d k v) = (map_of d)(k \<mapsto> v)"
  by (induction d k v rule: dict_set.induct) (auto simp: fun_eq_iff)

lemma map_of_categories_dict:
  "map_of (categories_dict cats) (KInt i) =
     map_option (\<lambda>c. PStr (ctype c)) (find (\<lambda>c. cid c = i) (rev cats))"
  unfolding categories_dict_def
  by (induction cats rule: rev_induct) (simp_all add: map_of_dict_set)

text \<open>
  C7. \<^verbatim>\<open>GET /questions\<close> is not found whenever the page is empty, as it is for
  every page beyond the last. Otherwise the response carries the page of the
  questions in the order of their ids, the number of all questions, the
  dictionary of the categories (each id with the type of its row) and a null
  current category.
\<close>

theorem get_questions_page:
  "get_questions page_arg db =
     (let page = paginate_questions page_arg (order_by_id (questions db))
      in if page = [] then Inl NotFound
         else Inr (PDict [(KStr ''success'', PBool True),
                          (KStr ''questions'', PList page),
                          (KStr ''total_questions'', PInt (int (length (questions db)))),
                          (KStr ''categories'', PDict (categories_dict (categories db))),
                          (KStr ''current_category'', PNone)])) \<and>
   sorted (map qid (order_by_id (questions db))) \<and>
   mset (order_by_id (questions db)) = mset (questions db) \<and>
   (1 \<le> N \<and> int (length (questions db)) \<le> (N - 1) * 10 \<longrightarrow>
      get_questions (Some N) db = Inl NotFound) \<and>
   map_of (categories_dict (categories db)) (KInt i) =
     map_option (\<lambda>c. PStr (ctype c)) (find (\<lambda>c. cid c = i) (rev (categories db)))"
proof (intro conjI)
  show "get_questions page_arg db =
     (let page = paginate_questions page_arg (order_by_id (questions db))
      in if page = [] then Inl NotFound
         else Inr (PDict [(KStr ''success'', PBool True),
                          (KStr ''questions'', PList page),
                          (KStr ''total_questions'', PInt (int (length (questions db)))),
                          (KStr ''categories'', PDict (categories_dict (categories db))),
                          (KStr ''current_category'', PNone)]))"
    by (simp add: get_questions_def Let_def length_order_by_id)
  show "sorted (map qid (order_by_id (questions db)))"
    by (simp add: order_by_id_def)
  show "mset (order_by_id (questions db)) = mset (questions db)"
    by (simp add: order_by_id_def)
  show "1 \<le> N \<and> int (length (questions db)) \<le> (N - 1) * 10 \<longrightarrow>
      get_questions (Some N) db = Inl NotFound"
    by (simp add: get_questions_NotFound_iff page_beyond_last length_order_by_id)
  show "map_of (categories_dict (categories db)) (KInt i) =
     map_option (\<lambda>c. PStr (ctype c)) (find (\<lambda>c. cid c = i) (rev (categories db)))"
    by (rule map_of_categories_dict)
qed

theorem get_questions_page_witness:
  "(1::int) \<le> 2 \<and> int (length (questions (sample_db 2))) \<le> (2 - 1) * 10 \<and>
   get_questions (Some 2) (sample_db 2) = Inl NotFound \<and>
   get_questions None (sample_db 2) =
     Inr (PDict [(KStr ''success'', PBool True),
                 (KStr ''questions'', PList [format (sample 1), format (sample 2)]),
                 (KStr ''total_questions'', PInt 2),
                 (KStr ''categories'', PDict [(KInt 3, PStr (lit ''History''))]),
                 (KStr ''current_category'', PNone)])"
proof -
  have page: "paginate_questions None (order_by_id (questions (sample_db 2)))
                = [format (sample 1), format (sample 2)]"
    by code_simp
  have cats: "categories_dict (categories (sample_db 2)) = [(KInt 3, PStr (lit ''History''))]"
    by code_simp
  have len: "length (questions (sample_db 2)) = 2"
    by (simp add: sample_db_def samples_def)
  show ?thesis
    using get_questions_page [of None "sample_db 2" 2 3] get_questions_page [of "Some 2" "sample_db 2" 2 3]
    by (simp add: page cats len)
qed

section \<open>Questions of a category\<close>

text \<open>
  C9. \<^verbatim>\<open>GET /categories/{id}/questions\<close> returns the questions whose category is
  the string \<^verbatim>\<open>str(id)\<close>, each of them and no other, with their number and the
  requested id as current category; when no question has that category the
  response is 404.
\<close>

theorem category_questions_exact:
  "((\<forall>q \<in> set (questions db). category q \<noteq> str_int (int category_id)) \<longrightarrow>
      get_questions_by_category db category_id = Inl NotFound \<and>
      status_code (get_questions_by_category db category_id) = 404) \<and>
   ((\<exists>q \<in> set (questions db). category q = str_int (int category_id)) \<longrightarrow>
      get_questions_by_category db category_id =
        Inr (PDict [(KStr ''success'', PBool True),
                    (KStr ''questions'',
                       PList (map format
                         (filter (\<lambda>q. category q = str_int (int category_id)) (questions db)))),
                    (KStr ''total_questions'',
                       PInt (int (length
                         (filter (\<lambda>q. category q = str_int (int category_id)) (questions db))))),
                    (KStr ''current_category'', PInt (int category_id))]))"
  by (auto simp: get_questions_by_category_def Let_def filter_empty_conv)

theorem category_questions_exact_witness:
  "get_questions_by_category (sample_db 2) 999 = Inl NotFound \<and>
   get_questions_by_category (sample_db 2) 3 =
     Inr (PDict [(KStr ''success'', PBool True),
                 (KStr ''questions'', PList [format (sample 2), format (sample 1)]),
                 (KStr ''total_questions'', PInt 2),
                 (KStr ''current_category'', PInt 3)])"
proof -
  have a: "str_int 3 = lit ''3''" and b: "str_int 999 = lit ''999''"
    by code_simp+
  have rows: "questions (sample_db 2) = [sample 2, sample 1]"
    by code_simp
  show ?thesis
    using category_questions_exact [of "sample_db 2" 3] category_questions_exact [of "sample_db 2" 999]
    by (simp add: a b rows sample_def lit_eq_iff)
qed

section \<open>Deleting a question\<close>

lemma session_get_None_iff:
  "session_get rows i = None \<longleftrightarrow> (\<forall>q \<in> set rows. qid q \<noteq> i)"
  by (auto simp: session_get_def find_None_iff)

lemma session_get_Some_id: "session_get rows i = Some q \<Longrightarrow> qid q = i"
  by (auto simp: session_get_def find_Some_iff)

lemma delete_in_session_absent:
  "\<forall>q \<in> set (questions db). qid q \<noteq> int i \<Longrightarrow>
     delete_in_session f (open_session db) i = (Inl NotFound, open_session db)"
  using session_get_None_iff [of "questions db" "int i"]
  by (simp add: delete_in_session_def open_session_def)

lemma delete_in_session_present:
  assumes "\<exists>q \<in> set (questions db). qid q = int i"
  shows "delete_in_session f (open_session db) i =
     (if f = NoFault
      then (Inr (PDict [(KStr ''success'', PBool True), (KStr ''deleted'', PInt (int i))]),
            \<lparr>committed = filter (\<lambda>q. qid q \<noteq> int i) (questions db),
             pending = filter (\<lambda>q. qid q \<noteq> int i) (questions db)\<rparr>)
      else (Inl Unprocessable, open_session db))"
proof -
  from assms obtain q where q: "session_get (questions db) (int i) = Some q"
    using session_get_None_iff [of "questions db" "int i"] by fastforce
  then have "qid q = int i" by (rule session_get_Some_id)
  with q show ?thesis
    by (cases f)
       (simp_all add: delete_in_session_def open_session_def session_delete_def
          session_commit_def session_rollback_def)
qed

lemma open_session_rows:
  "committed (open_session db) = questions db" "pending (open_session db) = questions db"
  by (simp_all add: open_session_def)

lemma delete_question_absent:
  "\<forall>q \<in> set (questions db). qid q \<noteq> int i \<Longrightarrow> delete_question f db i = (Inl NotFound, db)"
  by (simp add: delete_question_def delete_in_session_absent open_session_rows)

lemma delete_question_present:
  assumes "\<exists>q \<in> set (questions db). qid q = int i"
  shows "delete_question f db i =
     (if f = NoFault
      then (Inr (PDict [(KStr ''success'', PBool True), (KStr ''deleted'', PInt (int i))]),
            db\<lparr>questions := filter (\<lambda>q. qid q \<noteq> int i) (questions db)\<rparr>)
      else (Inl Unprocessable, db))"
  by (simp add: delete_question_def delete_in_session_present [OF assms] open_session_rows)

text \<open>
  A commit that raises leaves the deletion pending: it is the rollback that
  takes it out of the session.
\<close>

lemma commit_raises_leaves_pending:
  assumes "q \<in> set (questions db)"
  shows "session_delete CommitRaises (open_session db) q =
           Inr \<lparr>committed = questions db,
                pending = filter (\<lambda>r. qid r \<noteq> qid q) (questions db)\<rparr> \<and>
         filter (\<lambda>r. qid r \<noteq> qid q) (questions db) \<noteq> questions db"
proof -
  have "filter (\<lambda>r. qid r \<noteq> qid q) (questions db) \<noteq> questions db"
    using assms by (auto simp: filter_id_conv)
  then show ?thesis
    by (simp add: session_delete_def open_session_def)
qed

text \<open>
  C5. \<^verbatim>\<open>DELETE /questions/{id}\<close> is not found when no question has the id. When
  one has and nothing fails, the rows with the id are gone from the committed
  table, a lookup of the id finds nothing, and the response carries the id. When
  the delete or the commit raises, the session is rolled back: it is left with
  nothing pending (its pending rows are its committed rows, those of the table
  before the request), the table is as it was, and the response is 422.
\<close>

theorem delete_question_cases:
  "((\<forall>q \<in> set (questions db). qid q \<noteq> int i) \<longrightarrow>
      delete_question f db i = (Inl NotFound, db)) \<and>
   ((\<exists>q \<in> set (questions db). qid q = int i) \<and> f = NoFault \<longrightarrow>
      delete_question f db i =
        (Inr (PDict [(KStr ''success'', PBool True), (KStr ''deleted'', PInt (int i))]),
         db\<lparr>questions := filter (\<lambda>q. qid q \<noteq> int i) (questions db)\<rparr>) \<and>
      session_get (questions (snd (delete_question f db i))) (int i) = None \<and>
      committed (snd (delete_in_session f (open_session db) i)) =
        filter (\<lambda>q. qid q \<noteq> int i) (questions db) \<and>
      pending (snd (delete_in_session f (open_session db) i)) =
        filter (\<lambda>q. qid q \<noteq> int i) (questions db)) \<and>
   ((\<exists>q \<in> set (questions db). qid q = int i) \<and> f \<noteq> NoFault \<longrightarrow>
      delete_question f db i = (Inl Unprocessable, db) \<and>
      status_code (fst (delete_question f db i)) = 422 \<and>
      fst (delete_in_session f (open_session db) i) = Inl Unprocessable \<and>
      pending (snd (delete_in_session f (open_session db) i)) =
        committed (snd (delete_in_session f (open_session db) i)) \<and>
      committed (snd (delete_in_session f (open_session db) i)) = questions db)"
  by (simp add: delete_question_absent delete_question_present delete_in_session_present
        session_get_None_iff open_session_rows)

theorem delete_question_cases_witness:
  "delete_question NoFault (sample_db 2) 9 = (Inl NotFound, sample_db 2) \<and>
   delete_question NoFault (sample_db 2) 1 =
     (Inr (PDict [(KStr ''success'', PBool True), (KStr ''deleted'', PInt 1)]),
      (sample_db 2)\<lparr>questions := [sample 2]\<rparr>) \<and>
   session_get (questions (snd (delete_question NoFault (sample_db 2) 1))) 1 = None \<and>
   delete_question CommitRaises (sample_db 2) 1 = (Inl Unprocessable, sample_db 2) \<and>
   pending (snd (delete_in_session CommitRaises (open_session (sample_db 2)) 1)) =
     [sample 2, sample 1] \<and>
   committed (snd (delete_in_session CommitRaises (open_session (sample_db 2)) 1)) =
     [sample 2, sample 1] \<and>
   pending (snd (delete_in_session DeleteRaises (open_session (sample_db 2)) 1)) =
     [sample 2, sample 1]"
proof -
  have rows: "questions (sample_db 2) = [sample 2, sample 1]"
    by code_simp
  show ?thesis
    using delete_question_cases [of "sample_db 2" 9 NoFault]
          delete_question_cases [of "sample_db 2" 1 NoFault]
          delete_question_cases [of "sample_db 2" 1 CommitRaises]
          delete_question_cases [of "sample_db 2" 1 DeleteRaises]
    by (simp add: rows sample_def session_get_def)
qed

section \<open>Creating a question\<close>

lemma get_absent: "map_of data (KStr k) = None \<Longrightarrow> get data k = PNone"
  by (simp add: get_def get_default_def)

text \<open>
  C3. \<^verbatim>\<open>POST /questions\<close> succeeds exactly when the four fields are truthy and the
  insert does not fail; it then appends the row and returns its id. When a field
  is absent or falsy (a difficulty of 0 is) or the insert fails, the response is
  422 and the table is unchanged.
\<close>

theorem create_question_cases:
  fixes stored db data
  defines "vals \<equiv> (get data ''question'', get data ''answer'', get data ''category'',
                     get data ''difficulty'')"
  defines "complete \<equiv> truthy (get data ''question'') \<and> truthy (get data ''answer'') \<and>
                        truthy (get data ''category'') \<and> truthy (get data ''difficulty'')"
  shows
  "((\<exists>i db'. create_question stored db data =
        (Inr (PDict [(KStr ''success'', PBool True), (KStr ''created'', PInt i)]), db'))
      \<longleftrightarrow> complete \<and> stored vals \<noteq> None) \<and>
   (\<forall>row. complete \<and> stored vals = Some row \<longrightarrow>
      create_question stored db data =
        (Inr (PDict [(KStr ''success'', PBool True), (KStr ''created'', PInt (qid row))]),
         db\<lparr>questions := questions db @ [row]\<rparr>)) \<and>
   (\<not> complete \<or> stored vals = None \<longrightarrow>
      create_question stored db data = (Inl Unprocessable, db) \<and>
      status_code (fst (create_question stored db data)) = 422) \<and>
   ((\<exists>k \<in> {''question'', ''answer'', ''category'', ''difficulty''}. map_of data (KStr k) = None)
      \<longrightarrow> \<not> complete) \<and>
   (get data ''difficulty'' = PInt 0 \<longrightarrow> \<not> complete)"
  unfolding vals_def complete_def
  by (auto simp: create_question_def insert_question_def Let_def get_absent split: option.splits)

theorem create_question_cases_witness:
  "create_question sample_stored (sample_db 1) new_question =
     (Inr (PDict [(KStr ''success'', PBool True), (KStr ''created'', PInt 24)]),
      (sample_db 1)\<lparr>questions := questions (sample_db 1) @
         [\<lparr>qid = 24, question = lit ''What is the capital of France?'', answer = lit ''Paris'',
           category = lit ''3'', difficulty = 1\<rparr>]\<rparr>) \<and>
   create_question sample_stored (sample_db 1) incomplete_question =
     (Inl Unprocessable, sample_db 1) \<and>
   create_question sample_stored (sample_db 1) (new_question @ [(KStr ''difficulty'', PInt 0)]) \<noteq>
     (Inl Unprocessable, sample_db 1) \<and>
   create_question sample_stored (sample_db 1) ((KStr ''difficulty'', PInt 0) # new_question) =
     (Inl Unprocessable, sample_db 1)"
  using create_question_cases [of sample_stored "sample_db 1" new_question]
        create_question_cases [of sample_stored "sample_db 1" incomplete_question]
        create_question_cases [of sample_stored "sample_db 1" "new_question @ [(KStr ''difficulty'', PInt 0)]"]
        create_question_cases [of sample_stored "sample_db 1" "(KStr ''difficulty'', PInt 0) # new_question"]
  by (simp add: new_question_def incomplete_question_def get_def get_default_def lit_empty_iff)

section \<open>Searching\<close>

lemma lit_percent: "lit ''%'' = [percent]"
  by (simp add: lit_def percent_def)

lemma lower_percent: "lower tolower percent = percent"
  by (simp add: lower_def percent_def)

lemma like_percent: "like [percent] s"
  by (induction s) simp_all

lemma like_percent_percent: "like [percent, percent] s"
  by (cases s) (simp_all add: like_percent)

lemma ilike_percent_percent: "ilike tolower s (lit ''%'' @ lit ''%'')"
  by (simp add: ilike_def lit_percent lower_percent like_percent_percent)

text \<open>
  C10. When the body has no \<^verbatim>\<open>searchTerm\<close>, or an empty one, the pattern is
  \<^verbatim>\<open>%%\<close>, which every text matches: the search returns every question of the
  table with success true, so the result is empty only when the table is.
\<close>

theorem empty_search_returns_all:
  assumes "map_of data (KStr ''searchTerm'') = None \<or>
           map_of data (KStr ''searchTerm'') = Some (PStr [])"
  shows "search_questions tolower repr db data =
           Inr (PDict [(KStr ''success'', PBool True),
                       (KStr ''questions'', PList (map format (questions db))),
                       (KStr ''total_questions'', PInt (int (length (questions db))))]) \<and>
         status_code (search_questions tolower repr db data) = 200"
proof -
  from assms have "get_default data ''searchTerm'' (PStr []) = PStr []"
    by (auto simp: get_default_def)
  then show ?thesis
    using ilike_percent_percent [of tolower] by (simp add: search_questions_def Let_def)
qed

theorem empty_search_returns_all_witness:
  "search_questions latin_fold (\<lambda>v. []) (sample_db 2) [] =
     Inr (PDict [(KStr ''success'', PBool True),
                 (KStr ''questions'', PList [format (sample 2), format (sample 1)]),
                 (KStr ''total_questions'', PInt 2)]) \<and>
   search_questions latin_fold (\<lambda>v. []) (sample_db 2) [(KStr ''searchTerm'', PStr [])] =
     Inr (PDict [(KStr ''success'', PBool True),
                 (KStr ''questions'', PList [format (sample 2), format (sample 1)]),
                 (KStr ''total_questions'', PInt 2)])"
proof -
  have rows: "questions (sample_db 2) = [sample 2, sample 1]"
    by code_simp
  show ?thesis
    using empty_search_returns_all [where data = "[]" and tolower = latin_fold
            and repr = "\<lambda>v. []" and db = "sample_db 2"]
          empty_search_returns_all [where data = "[(KStr ''searchTerm'', PStr [])]"
            and tolower = latin_fold and repr = "\<lambda>v. []" and db = "sample_db 2"]
    by (simp add: rows)
qed

text \<open>
  A term without wildcards is searched for as the spec says, in a locale whose
  lower case of a character beyond ASCII is never a wildcard: the pattern
  \<^verbatim>\<open>%term%\<close> matches the texts that contain the term, without regard to case.
\<close>

lemma lower_wildcard:
  assumes "\<forall>c\<ge>128. \<not> wildcard (tolower c)"
  shows "wildcard (lower tolower c) \<longleftrightarrow> wildcard c"
proof (cases "c < 128")
  case True
  then show ?thesis
    by (auto simp: lower_def wildcard_def percent_def underscore_def backslash_def)
next
  case False
  then have "lower tolower c = tolower c" by (simp add: lower_def)
  moreover have "\<not> wildcard (tolower c)" using assms False by simp
  moreover have "\<not> wildcard c"
    using False by (auto simp: wildcard_def percent_def underscore_def backslash_def)
  ultimately show ?thesis by simp
qed

lemma like_plain_prefix:
  "\<forall>p \<in> set ps. \<not> wildcard p \<Longrightarrow> like (ps @ [percent]) s \<longleftrightarrow> prefix ps s"
proof (induction ps arbitrary: s)
  case Nil
  then show ?case by (simp add: like_percent)
next
  case (Cons p ps)
  then have p: "\<not> wildcard p" and ps: "\<forall>p \<in> set ps. \<not> wildcard p"
    by simp_all
  show ?case
  proof (cases s)
    case Nil
    with p show ?thesis by (simp add: wildcard_def)
  next
    case (Cons c cs)
    with p Cons.IH [OF ps, of cs] show ?thesis by (simp add: wildcard_def)
  qed
qed

lemma like_percent_suffix:
  "like (percent # ps) s \<longleftrightarrow> (\<exists>t. suffix t s \<and> like ps t)"
proof (induction s)
  case Nil
  then show ?case by simp
next
  case (Cons c cs)
  then show ?case by (auto simp: suffix_Cons)
qed

lemma sublist_suffix_prefix: "sublist xs ys \<longleftrightarrow> (\<exists>t. suffix t ys \<and> prefix xs t)"
  by (auto simp: sublist_def suffix_def prefix_def)

lemma like_plain_sublist:
  assumes "\<forall>p \<in> set ps. \<not> wildcard p"
  shows "like (percent # ps @ [percent]) s \<longleftrightarrow> sublist ps s"
  using like_plain_prefix [OF assms]
  by (simp add: like_percent_suffix sublist_suffix_prefix)

lemma ilike_plain:
  assumes "\<forall>c \<in> set needle. \<not> wildcard c" and "\<forall>c\<ge>128. \<not> wildcard (tolower c)"
  shows "ilike tolower hay (lit ''%'' @ needle @ lit ''%'') \<longleftrightarrow> contains_ci tolower needle hay"
proof -
  have "\<forall>p \<in> set (map (lower tolower) needle). \<not> wildcard p"
    using assms by (simp add: lower_wildcard)
  from like_plain_sublist [OF this] show ?thesis
    by (simp add: ilike_def contains_ci_def lit_percent lower_percent)
qed

lemma search_questions_plain:
  assumes "map_of data (KStr ''searchTerm'') = Some (PStr needle)"
      and "\<forall>c \<in> set needle. \<not> wildcard c"
      and "\<forall>c\<ge>128. \<not> wildcard (tolower c)"
  shows "search_questions tolower repr db data =
           Inr (PDict [(KStr ''success'', PBool True),
                       (KStr ''questions'',
                          PList (map format
                            (filter (\<lambda>q. contains_ci tolower needle (question q)) (questions db)))),
                       (KStr ''total_questions'',
                          PInt (int (length
                            (filter (\<lambda>q. contains_ci tolower needle (question q)) (questions db)))))])"
proof -
  have "get_default data ''searchTerm'' (PStr []) = PStr needle"
    using assms(1) by (simp add: get_default_def)
  then show ?thesis
    using ilike_plain [OF assms(2,3)] by (simp add: search_questions_def Let_def)
qed

lemma search_questions_succeeds: "status_code (search_questions tolower repr db data) = 200"
  by (simp add: search_questions_def Let_def)

text \<open>
  In a locale that folds the capital letters of Latin-1, the search for a word
  that begins with a small e with acute accent (code point 233) finds the word
  with the capital letter (code point 201).
\<close>

lemma ilike_latin:
  "ilike latin_fold (201 # lit ''cole'') (lit ''%'' @ 233 # lit ''cole'' @ lit ''%'')"
  by code_simp

text \<open>
  C8. The search always succeeds and returns all matches with their number, but
  the matches are those of the pattern, not of the substring: the term \<^verbatim>\<open>_\<close> is
  a pattern for any one character, and the search for it returns the question
  \<^verbatim>\<open>abc\<close>, which does not contain it.
\<close>

theorem search_wildcard:
  "search_questions tolower repr (sample_db 1) [(KStr ''searchTerm'', PStr (lit ''_''))] =
     Inr (PDict [(KStr ''success'', PBool True),
                 (KStr ''questions'', PList [format (sample 1)]),
                 (KStr ''total_questions'', PInt 1)]) \<and>
   \<not> contains_ci tolower (lit ''_'') (question (sample 1))"
proof -
  have rows: "questions (sample_db (Suc 0)) = [sample (Suc 0)]"
    by (simp add: sample_db_def samples_def)
  have abc: "question (sample (Suc 0)) = lit ''abc''"
    by (simp add: sample_def)
  have low: "map (lower tolower) (lit ''abc'') = lit ''abc''"
            "map (lower tolower) (lit ''%_%'') = [percent, underscore, percent]"
            "map (lower tolower) (lit ''_'') = [underscore]"
    by (simp_all add: lit_def lower_def percent_def underscore_def)
  have hit: "ilike tolower (lit ''abc'') (lit ''%'' @ lit ''_'' @ lit ''%'')"
    using low by (simp add: ilike_def lit_def percent_def underscore_def backslash_def)
  have "\<not> sublist [underscore] (lit ''abc'')"
    by (simp add: lit_def underscore_def sublist_Cons_right prefix_Cons)
  then have miss: "\<not> contains_ci tolower (lit ''_'') (lit ''abc'')"
    by (simp add: contains_ci_def low)
  show ?thesis
    using hit miss by (simp add: search_questions_def Let_def get_default_def rows abc)
qed

section \<open>Playing the quiz\<close>

lemma format_inj: "format q = format q' \<Longrightarrow> q = q'"
  by (cases q, cases q') (simp add: format_def)

lemma choice_mem: "qs \<noteq> [] \<Longrightarrow> choice rnd qs \<in> set qs"
  by (simp add: choice_def)

lemma choice_reach: "q \<in> set qs \<Longrightarrow> \<exists>rnd. choice rnd qs = q"
proof -
  assume "q \<in> set qs"
  then obtain n where "n < length qs" and "qs ! n = q"
    by (auto simp: in_set_conv_nth)
  then have "choice n qs = q" by (simp add: choice_def)
  then show ?thesis ..
qed

lemma format_not_None: "format q \<noteq> PNone"
  by (simp add: format_def)

text \<open>The candidates of the quiz, when the request is well formed.\<close>

lemma play_quiz_candidates:
  assumes "id_list (get_default data ''previous_questions'' (PList [])) = Some ids"
      and "getitem (get_default data ''quiz_category'' PNone) ''id'' = Inr i"
  shows "play_quiz repr other rnd db data =
           (let qs = filter (\<lambda>q. (truthy i \<longrightarrow> category q = str repr i) \<and> qid q \<notin> set ids)
                       (questions db)
            in Inr (PDict [(KStr ''success'', PBool True),
                           (KStr ''question'', if qs \<noteq> [] then format (choice rnd qs) else PNone)]))"
  using assms by (simp add: play_quiz_def notin_def Let_def)

lemma play_quiz_malformed:
  "getitem (get_default data ''quiz_category'' PNone) ''id'' = Inl e \<Longrightarrow>
     play_quiz repr other rnd db data = Inl Unprocessable"
  by (simp add: play_quiz_def)

lemma play_quiz_success_shape:
  "play_quiz repr other rnd db data = Inr body \<Longrightarrow>
     \<exists>i. getitem (get_default data ''quiz_category'' PNone) ''id'' = Inr i"
  by (auto simp: play_quiz_def split: sum.splits)

lemma play_quiz_reach:
  assumes "id_list (get_default data ''previous_questions'' (PList [])) = Some ids"
      and "getitem (get_default data ''quiz_category'' PNone) ''id'' = Inr i"
  shows "(\<exists>rnd. play_quiz repr other rnd db data =
            Inr (PDict [(KStr ''success'', PBool True), (KStr ''question'', format q)]))
         \<longleftrightarrow> q \<in> set (questions db) \<and> qid q \<notin> set ids \<and>
             (truthy i \<longrightarrow> category q = str repr i)"
proof -
  define qs where
    "qs = filter (\<lambda>q. (truthy i \<longrightarrow> category q = str repr i) \<and> qid q \<notin> set ids) (questions db)"
  have resp: "play_quiz repr other rnd db data =
            Inr (PDict [(KStr ''success'', PBool True),
                        (KStr ''question'', if qs \<noteq> [] then format (choice rnd qs) else PNone)])"
    for rnd
    unfolding qs_def using play_quiz_candidates [OF assms, of repr other rnd db]
    by (simp only: Let_def)
  have "(\<exists>rnd. play_quiz repr other rnd db data =
            Inr (PDict [(KStr ''success'', PBool True), (KStr ''question'', format q)]))
        \<longleftrightarrow> q \<in> set qs"
  proof
    assume "\<exists>rnd. play_quiz repr other rnd db data =
            Inr (PDict [(KStr ''success'', PBool True), (KStr ''question'', format q)])"
    then obtain rnd where
      eq: "(if qs \<noteq> [] then format (choice rnd qs) else PNone) = format q"
      using resp by auto
    then have ne: "qs \<noteq> []"
      using format_not_None [of q] by (auto split: if_splits)
    with eq have "format (choice rnd qs) = format q" by simp
    then have "choice rnd qs = q" by (rule format_inj)
    with ne show "q \<in> set qs" using choice_mem [of qs rnd] by simp
  next
    assume q: "q \<in> set qs"
    from choice_reach [OF q] obtain rnd where c: "choice rnd qs = q" ..
    from q have ne: "qs \<noteq> []" by auto
    have r: "play_quiz repr other rnd db data =
            Inr (PDict [(KStr ''success'', PBool True), (KStr ''question'', format q)])"
      unfolding resp [of rnd] by (simp only: ne c if_True not_False_eq_True)
    show "\<exists>rnd. play_quiz repr other rnd db data =
            Inr (PDict [(KStr ''success'', PBool True), (KStr ''question'', format q)])"
      by (rule exI [of _ rnd]) (rule r)
  qed
  also have "q \<in> set qs \<longleftrightarrow> q \<in> set (questions db) \<and> qid q \<notin> set ids \<and>
             (truthy i \<longrightarrow> category q = str repr i)"
    unfolding qs_def set_filter by blast
  finally show ?thesis .
qed

text \<open>
  C1. With a list of ids as \<^verbatim>\<open>previous_questions\<close> (the empty list when the
  key is absent), a successful response of \<^verbatim>\<open>POST /quizzes\<close> carries a null
  question or a question of the table whose id is not in the list. When the
  request names its scope (\<^verbatim>\<open>quiz_category['id']\<close> can be read: the questions
  of that category when it is truthy, all questions otherwise) and the id of
  every question in scope is in the list, the response is success true with a
  null question.
\<close>

theorem quiz_excludes_previous:
  assumes "id_list (get_default data ''previous_questions'' (PList [])) = Some ids"
  shows "(\<forall>body. play_quiz repr other rnd db data = Inr body \<longrightarrow>
            (\<exists>v. body = PDict [(KStr ''success'', PBool True), (KStr ''question'', v)] \<and>
                 (v = PNone \<or>
                  (\<exists>q \<in> set (questions db). v = format q \<and> qid q \<notin> set ids)))) \<and>
         (\<forall>i. getitem (get_default data ''quiz_category'' PNone) ''id'' = Inr i \<and>
              (\<forall>q \<in> set (questions db).
                 (truthy i \<longrightarrow> category q = str repr i) \<longrightarrow> qid q \<in> set ids) \<longrightarrow>
              play_quiz repr other rnd db data =
                Inr (PDict [(KStr ''success'', PBool True), (KStr ''question'', PNone)]))"
proof (intro conjI allI impI)
  fix body
  assume ok: "play_quiz repr other rnd db data = Inr body"
  then obtain i where i: "getitem (get_default data ''quiz_category'' PNone) ''id'' = Inr i"
    using play_quiz_success_shape by blast
  define qs where
    "qs = filter (\<lambda>q. (truthy i \<longrightarrow> category q = str repr i) \<and> qid q \<notin> set ids) (questions db)"
  have "play_quiz repr other rnd db data =
          Inr (PDict [(KStr ''success'', PBool True),
                      (KStr ''question'', if qs \<noteq> [] then format (choice rnd qs) else PNone)])"
    unfolding qs_def using play_quiz_candidates [OF assms i, of repr other rnd db]
    by (simp only: Let_def)
  with ok have body: "body = PDict [(KStr ''success'', PBool True),
                            (KStr ''question'', if qs \<noteq> [] then format (choice rnd qs) else PNone)]"
    by simp
  show "\<exists>v. body = PDict [(KStr ''success'', PBool True), (KStr ''question'', v)] \<and>
            (v = PNone \<or> (\<exists>q \<in> set (questions db). v = format q \<and> qid q \<notin> set ids))"
  proof (cases "qs = []")
    case True
    with body show ?thesis by simp
  next
    case False
    then have "choice rnd qs \<in> set qs" by (rule choice_mem)
    then have "choice rnd qs \<in> set (questions db)" and "qid (choice rnd qs) \<notin> set ids"
      by (simp_all add: qs_def)
    with body False show ?thesis by auto
  qed
next
  fix i
  assume a: "getitem (get_default data ''quiz_category'' PNone) ''id'' = Inr i \<and>
             (\<forall>q \<in> set (questions db).
                (truthy i \<longrightarrow> category q = str repr i) \<longrightarrow> qid q \<in> set ids)"
  then have "filter (\<lambda>q. (truthy i \<longrightarrow> category q = str repr i) \<and> qid q \<notin> set ids)
               (questions db) = []"
    by (auto simp: filter_empty_conv)
  with a show "play_quiz repr other rnd db data =
                 Inr (PDict [(KStr ''success'', PBool True), (KStr ''question'', PNone)])"
    using play_quiz_candidates [OF assms, of i repr other rnd db] by simp
qed

theorem quiz_excludes_previous_witness:
  "play_quiz (\<lambda>v. []) (\<lambda>v. Inl DatabaseError) 7 (sample_db 2) (quiz_data [2] (PInt 3)) =
     Inr (PDict [(KStr ''success'', PBool True), (KStr ''question'', format (sample 1))]) \<and>
   qid (sample 1) \<notin> set [2] \<and>
   play_quiz (\<lambda>v. []) (\<lambda>v. Inl DatabaseError) 7 (sample_db 2) (quiz_data [2, 1] (PInt 3)) =
     Inr (PDict [(KStr ''success'', PBool True), (KStr ''question'', PNone)])"
proof -
  let ?repr = "\<lambda>v::py. ([]::unicode)"
  have rows: "questions (sample_db 2) = [sample 2, sample 1]"
    by code_simp
  have three: "str_int 3 = lit ''3''"
    by code_simp
  have prev: "id_list (get_default (quiz_data [2, 1] (PInt 3)) ''previous_questions'' (PList []))
                = Some [2, 1]"
    by (simp add: quiz_data_def get_default_def)
  have cat: "getitem (get_default (quiz_data [2, 1] (PInt 3)) ''quiz_category'' PNone) ''id''
               = Inr (PInt 3)"
    by (simp add: quiz_data_def get_default_def)
  have scope: "\<forall>q \<in> set (questions (sample_db 2)).
                 (truthy (PInt 3) \<longrightarrow> category q = str ?repr (PInt 3)) \<longrightarrow> qid q \<in> set [2, 1]"
    by (simp add: rows sample_def)
  have exhausted: "play_quiz ?repr (\<lambda>v. Inl DatabaseError) 7 (sample_db 2) (quiz_data [2, 1] (PInt 3)) =
     Inr (PDict [(KStr ''success'', PBool True), (KStr ''question'', PNone)])"
    by (rule quiz_excludes_previous [OF prev, THEN conjunct2, rule_format, OF conjI [OF cat scope]])
  have one: "play_quiz ?repr (\<lambda>v. Inl DatabaseError) 7 (sample_db 2) (quiz_data [2] (PInt 3)) =
     Inr (PDict [(KStr ''success'', PBool True), (KStr ''question'', format (sample 1))])"
    by code_simp
  have "qid (sample 1) \<notin> set [2]"
    by (simp add: sample_def)
  with one exhausted show ?thesis by simp
qed

text \<open>
  C4. When \<^verbatim>\<open>quiz_category\<close> is missing, or is a dictionary without the key
  \<^verbatim>\<open>id\<close>, or \<^verbatim>\<open>quiz_category['id']\<close> raises for any other reason, the response
  is 422. When the id is there but falsy, as 0 is, the questions that can be
  drawn are all questions of the table not yet seen; when it is truthy, they are
  the unseen questions whose category is \<^verbatim>\<open>str\<close> of the id.
\<close>

theorem quiz_category_cases:
  "(map_of data (KStr ''quiz_category'') = None \<longrightarrow>
      play_quiz repr other rnd db data = Inl Unprocessable) \<and>
   (\<forall>d. map_of data (KStr ''quiz_category'') = Some (PDict d) \<and> map_of d (KStr ''id'') = None \<longrightarrow>
      play_quiz repr other rnd db data = Inl Unprocessable) \<and>
   (\<forall>e. getitem (get_default data ''quiz_category'' PNone) ''id'' = Inl e \<longrightarrow>
      play_quiz repr other rnd db data = Inl Unprocessable \<and>
      status_code (play_quiz repr other rnd db data) = 422) \<and>
   (\<forall>ids i q.
      id_list (get_default data ''previous_questions'' (PList [])) = Some ids \<and>
      getitem (get_default data ''quiz_category'' PNone) ''id'' = Inr i \<longrightarrow>
        (\<not> truthy i \<longrightarrow>
           ((\<exists>rnd'. play_quiz repr other rnd' db data =
               Inr (PDict [(KStr ''success'', PBool True), (KStr ''question'', format q)]))
            \<longleftrightarrow> q \<in> set (questions db) \<and> qid q \<notin> set ids)) \<and>
        (truthy i \<longrightarrow>
           ((\<exists>rnd'. play_quiz repr other rnd' db data =
               Inr (PDict [(KStr ''success'', PBool True), (KStr ''question'', format q)]))
            \<longleftrightarrow> q \<in> set (questions db) \<and> qid q \<notin> set ids \<and> category q = str repr i))) \<and>
   \<not> truthy (PInt 0)"
proof (intro conjI allI impI)
  assume "map_of data (KStr ''quiz_category'') = None"
  then show "play_quiz repr other rnd db data = Inl Unprocessable"
    by (simp add: play_quiz_def get_default_def)
next
  fix d
  assume "map_of data (KStr ''quiz_category'') = Some (PDict d) \<and> map_of d (KStr ''id'') = None"
  then show "play_quiz repr other rnd db data = Inl Unprocessable"
    by (simp add: play_quiz_def get_default_def)
next
  fix e
  assume e: "getitem (get_default data ''quiz_category'' PNone) ''id'' = Inl e"
  then show "play_quiz repr other rnd db data = Inl Unprocessable"
    by (rule play_quiz_malformed)
  with e show "status_code (play_quiz repr other rnd db data) = 422"
    by simp
next
  fix ids i q
  assume a: "id_list (get_default data ''previous_questions'' (PList [])) = Some ids \<and>
      getitem (get_default data ''quiz_category'' PNone) ''id'' = Inr i"
  assume t: "\<not> truthy i"
  have "id_list (get_default data ''previous_questions'' (PList [])) = Some ids"
    and "getitem (get_default data ''quiz_category'' PNone) ''id'' = Inr i"
    using a by simp_all
  from play_quiz_reach [OF this, of repr other db q] t
  show "(\<exists>rnd'. play_quiz repr other rnd' db data =
               Inr (PDict [(KStr ''success'', PBool True), (KStr ''question'', format q)]))
            \<longleftrightarrow> q \<in> set (questions db) \<and> qid q \<notin> set ids"
    by simp
next
  fix ids i q
  assume a: "id_list (get_default data ''previous_questions'' (PList [])) = Some ids \<and>
      getitem (get_default data ''quiz_category'' PNone) ''id'' = Inr i"
  assume t: "truthy i"
  have "id_list (get_default data ''previous_questions'' (PList [])) = Some ids"
    and "getitem (get_default data ''quiz_category'' PNone) ''id'' = Inr i"
    using a by simp_all
  from play_quiz_reach [OF this, of repr other db q] t
  show "(\<exists>rnd'. play_quiz repr other rnd' db data =
               Inr (PDict [(KStr ''success'', PBool True), (KStr ''question'', format q)]))
            \<longleftrightarrow> q \<in> set (questions db) \<and> qid q \<notin> set ids \<and> category q = str repr i"
    by simp
next
  show "\<not> truthy (PInt 0)" by simp
qed

theorem quiz_category_cases_witness:
  "play_quiz (\<lambda>v. []) (\<lambda>v. Inl DatabaseError) 7 mixed_db [] = Inl Unprocessable \<and>
   play_quiz (\<lambda>v. []) (\<lambda>v. Inl DatabaseError) 7 mixed_db
     [(KStr ''quiz_category'', PDict [(KStr ''type'', PStr (lit ''Art''))])] = Inl Unprocessable \<and>
   (\<exists>rnd. play_quiz (\<lambda>v. []) (\<lambda>v. Inl DatabaseError) rnd mixed_db (quiz_data [] (PInt 0)) =
      Inr (PDict [(KStr ''success'', PBool True),
                  (KStr ''question'', format ((sample 2)\<lparr>category := lit ''5''\<rparr>))])) \<and>
   \<not> (\<exists>rnd. play_quiz (\<lambda>v. []) (\<lambda>v. Inl DatabaseError) rnd mixed_db (quiz_data [] (PInt 3)) =
      Inr (PDict [(KStr ''success'', PBool True),
                  (KStr ''question'', format ((sample 2)\<lparr>category := lit ''5''\<rparr>))]))"
proof -
  let ?repr = "\<lambda>v::py. ([]::unicode)"
  let ?other = "\<lambda>v::py. (Inl DatabaseError :: py_exception + (int \<Rightarrow> bool))"
  let ?q = "(sample 2)\<lparr>category := lit ''5''\<rparr>"
  have three: "str_int 3 = lit ''3''"
    by code_simp
  have missing: "play_quiz ?repr ?other 7 mixed_db [] = Inl Unprocessable"
    using quiz_category_cases [of "[]" ?repr ?other 7 mixed_db] by simp
  have lacks: "play_quiz ?repr ?other 7 mixed_db
     [(KStr ''quiz_category'', PDict [(KStr ''type'', PStr (lit ''Art''))])] = Inl Unprocessable"
    using quiz_category_cases [of "[(KStr ''quiz_category'', PDict [(KStr ''type'', PStr (lit ''Art''))])]"
            ?repr ?other 7 mixed_db]
    by simp
  have prev: "id_list (get_default (quiz_data [] i) ''previous_questions'' (PList [])) = Some []"
    for i
    by (simp add: quiz_data_def get_default_def)
  have cat: "getitem (get_default (quiz_data [] i) ''quiz_category'' PNone) ''id'' = Inr i" for i
    by (simp add: quiz_data_def get_default_def)
  note zero = quiz_category_cases [of "quiz_data [] (PInt 0)" ?repr ?other 7 mixed_db,
      THEN conjunct2, THEN conjunct2, THEN conjunct2, THEN conjunct1, rule_format,
      OF conjI [OF prev cat], of ?q]
  note three' = quiz_category_cases [of "quiz_data [] (PInt 3)" ?repr ?other 7 mixed_db,
      THEN conjunct2, THEN conjunct2, THEN conjunct2, THEN conjunct1, rule_format,
      OF conjI [OF prev cat], of ?q]
  have all: "\<exists>rnd. play_quiz ?repr ?other rnd mixed_db (quiz_data [] (PInt 0)) =
      Inr (PDict [(KStr ''success'', PBool True), (KStr ''question'', format ?q)])"
    using zero by (simp add: mixed_db_def)
  have only: "\<not> (\<exists>rnd. play_quiz ?repr ?other rnd mixed_db (quiz_data [] (PInt 3)) =
      Inr (PDict [(KStr ''success'', PBool True), (KStr ''question'', format ?q)]))"
    using three' by (simp add: mixed_db_def three lit_eq_iff)
  from missing lacks all only show ?thesis by (intro conjI)
qed

end
